theory Spec2Isabelle
  imports Main "HOL-Library.Word"
begin

section \<open>The TF Serving proxy (pkg/tfservingproxy/tfservingproxy.go)\<close>

text \<open>
  The package holds two proxies in front of a TF Serving node: a REST proxy built on
  \<^verbatim>\<open>httputil.ReverseProxy\<close> and a gRPC proxy that implements the prediction and session
  services. Both count what they do in two Prometheus counter vectors labelled by
  protocol. The embedding passes the state that the Go code mutates (the counters) and
  the calls it makes to its collaborators (the routing handler, the HTTP transport, the
  client provider, the remote services) explicitly; logging is left out, but the
  evaluation of the arguments of a log call is kept where it can panic.
\<close>

subsection \<open>Characters of the URL\<close>

text \<open>
  \<^verbatim>\<open>req.URL.String()\<close> renders the path percent-encoded, so the text the pattern is matched
  against is ASCII up to the end of the path, and the flag \<^verbatim>\<open>(?i)\<close> is ASCII case folding
  there. A string is a list of bytes.
\<close>

definition is_digit :: "char \<Rightarrow> bool" where
  "is_digit c = (48 \<le> (of_char c :: nat) \<and> (of_char c :: nat) \<le> 57)"

definition is_upper :: "char \<Rightarrow> bool" where
  "is_upper c = (65 \<le> (of_char c :: nat) \<and> (of_char c :: nat) \<le> 90)"

definition is_lower :: "char \<Rightarrow> bool" where
  "is_lower c = (97 \<le> (of_char c :: nat) \<and> (of_char c :: nat) \<le> 122)"

definition lower :: "char \<Rightarrow> char" where
  "lower c = (if is_upper c then char_of ((of_char c :: nat) + 32) else c)"

text \<open>The class \<^verbatim>\<open>[a-z0-9]\<close> under \<^verbatim>\<open>(?i)\<close>: a character whose folding is in it.\<close>

definition in_az09_fold :: "char \<Rightarrow> bool" where
  "in_az09_fold c = (is_lower (lower c) \<or> is_digit (lower c))"

text \<open>
  A literal of the pattern under \<^verbatim>\<open>(?i)\<close>: the text starts with the literal up to case.
  The result is the matched text (in the case the text has it) and the rest.
\<close>

fun lit_fold :: "string \<Rightarrow> string \<Rightarrow> (string \<times> string) option" where
  "lit_fold [] s = Some ([], s)"
| "lit_fold (p # ps) [] = None"
| "lit_fold (p # ps) (c # cs) =
     (if lower c = lower p
      then (case lit_fold ps cs of None \<Rightarrow> None | Some (m, r) \<Rightarrow> Some (c # m, r))
      else None)"

subsection \<open>The URL pattern\<close>

text \<open>
  \<^verbatim>\<open>(?i)^/v1/models/(?P<modelName>[a-z0-9]+)(/versions/(?P<version>[0-9]+))?\<close>

  The pattern is anchored at the start only. Go's matcher prefers the longest repetition
  first and an optional group over its absence, and the match without the group always
  succeeds after the longest model name, so: the literal, then the longest run of class
  characters (at least one), then the group if it matches there (the literal and the
  longest run of digits, at least one).

  \<open>version_group\<close> is the optional group 2 with its inner group 3; \<open>FindStringSubmatch\<close>
  returns Go's slice: nil (the empty list) when the pattern does not match, otherwise the
  matched text followed by the text of the groups 1 to 3, a group that did not take
  part being the empty string.
\<close>

definition version_group :: "string \<Rightarrow> (string \<times> string) option" where
  "version_group s =
     (case lit_fold ''/versions/'' s of
        None \<Rightarrow> None
      | Some (l, r) \<Rightarrow>
          (let version = takeWhile is_digit r
           in if version = [] then None else Some (l @ version, version)))"

definition FindStringSubmatch :: "string \<Rightarrow> string list" where
  "FindStringSubmatch s =
     (case lit_fold ''/v1/models/'' s of
        None \<Rightarrow> []
      | Some (l, r) \<Rightarrow>
          (let modelName = takeWhile in_az09_fold r
           in if modelName = [] then []
              else (case version_group (dropWhile in_az09_fold r) of
                      None \<Rightarrow> [l @ modelName, modelName, [], []]
                    | Some (g, version) \<Rightarrow> [l @ modelName @ g, modelName, g, version])))"

subsection \<open>Panics and slices\<close>

text \<open>
  Indexing a slice beyond its length panics in Go. A function that can panic returns
  the panic together with the state reached when it happened.
\<close>

datatype panic = IndexOutOfRange nat nat

definition index :: "'a list \<Rightarrow> nat \<Rightarrow> panic + 'a" where
  "index xs i = (if i < length xs then Inr (xs ! i) else Inl (IndexOutOfRange i (length xs)))"

subsection \<open>Errors, requests and the state\<close>

text \<open>
  A Go \<^verbatim>\<open>error\<close> is a value of an interface: one made by \<^verbatim>\<open>errors.New\<close>, or one that
  a collaborator made (a gRPC status with its code and message).
\<close>

datatype error = errorString string | statusError nat string

text \<open>The request, as far as the proxy reads it: the text of \<^verbatim>\<open>req.URL.String()\<close>.\<close>

record Request =
  URL :: string

text \<open>A gRPC client connection, named by its target.\<close>

datatype ClientConn = ClientConn string

datatype rpc = rpcClassify | rpcRegress | rpcPredict | rpcGetModelMetadata | rpcSessionRun

text \<open>
  Modelled from the spec: the generated protocol buffer types of
  \<^verbatim>\<open>proto/tensorflow/serving\<close> are not among the sources. A request of each method
  carries an optional \<open>ModelSpec\<close> (a name and an optional wrapped 64-bit version) and a
  payload that the proxy does not read; a response is a payload. The getters are the
  generated ones: on a nil receiver they return the zero value.
\<close>

record Int64Value =
  Value :: "64 word"

record ModelSpec =
  Name :: string
  Version :: "Int64Value option"

record InferenceRequest =
  ModelSpec :: "ModelSpec option"
  Payload :: string

type_synonym InferenceResponse = string

definition GetModelSpec :: "InferenceRequest \<Rightarrow> ModelSpec option" where
  "GetModelSpec req = ModelSpec req"

definition GetName :: "ModelSpec option \<Rightarrow> string" where
  "GetName m = (case m of None \<Rightarrow> [] | Some x \<Rightarrow> Name x)"

definition GetVersion :: "ModelSpec option \<Rightarrow> Int64Value option" where
  "GetVersion m = (case m of None \<Rightarrow> None | Some x \<Rightarrow> Version x)"

definition GetValue :: "Int64Value option \<Rightarrow> 64 word" where
  "GetValue v = (case v of None \<Rightarrow> 0 | Some x \<Rightarrow> Value x)"

text \<open>The calls the proxy makes to its collaborators, in the order it makes them.\<close>

datatype call =
    HandlerCall Request string string
  | RoundTrip Request
  | ClientProviderCall string string
  | RemoteCall rpc ClientConn nat InferenceRequest

text \<open>
  The state: the two counter vectors \<^verbatim>\<open>requestsForwarded\<close>
  (\<^verbatim>\<open>tfservingcache_proxy_forwards_total\<close>) and \<^verbatim>\<open>requestsInvalid\<close>
  (\<^verbatim>\<open>tfservingcache_proxy_invalid_total\<close>), each a count for every value of the label
  \<^verbatim>\<open>protocol\<close> (zero for a label not used yet), and the calls made so far.
\<close>

record world =
  requestsForwarded :: "string \<Rightarrow> nat"
  requestsInvalid :: "string \<Rightarrow> nat"
  calls :: "call list"

text \<open>\<^verbatim>\<open>vec.WithLabelValues(l).Add(n)\<close> and \<^verbatim>\<open>.Inc()\<close> on a counter vector.\<close>

definition Add :: "string \<Rightarrow> nat \<Rightarrow> (string \<Rightarrow> nat) \<Rightarrow> (string \<Rightarrow> nat)" where
  "Add l n vec = vec(l := vec l + n)"

definition Inc :: "string \<Rightarrow> (string \<Rightarrow> nat) \<Rightarrow> (string \<Rightarrow> nat)" where
  "Inc l vec = Add l 1 vec"

definition called :: "call \<Rightarrow> world \<Rightarrow> world" where
  "called c s = s\<lparr>calls := calls s @ [c]\<rparr>"

subsection \<open>The response writer\<close>

text \<open>
  \<^verbatim>\<open>http.ResponseWriter\<close>: the header map, the status code once it is written, and the
  body. \<^verbatim>\<open>WriteHeader\<close> counts the first time only, and the first \<^verbatim>\<open>Write\<close> sends status
  200 when none was written.
\<close>

record ResponseWriter =
  Header :: "string \<rightharpoonup> string"
  statusCode :: "nat option"
  body :: string

definition newResponseWriter :: ResponseWriter where
  "newResponseWriter = \<lparr>Header = Map.empty, statusCode = None, body = []\<rparr>"

definition Header_Set :: "string \<Rightarrow> string \<Rightarrow> ResponseWriter \<Rightarrow> ResponseWriter" where
  "Header_Set k v rw = rw\<lparr>Header := (Header rw)(k \<mapsto> v)\<rparr>"

definition WriteHeader :: "nat \<Rightarrow> ResponseWriter \<Rightarrow> ResponseWriter" where
  "WriteHeader code rw = (if statusCode rw = None then rw\<lparr>statusCode := Some code\<rparr> else rw)"

definition Write :: "string \<Rightarrow> ResponseWriter \<Rightarrow> ResponseWriter" where
  "Write b rw = (let rw1 = WriteHeader 200 rw in rw1\<lparr>body := body rw1 @ b\<rparr>)"

definition StatusBadRequest :: nat where
  "StatusBadRequest = 400"

text \<open>
  \<^verbatim>\<open>json.NewEncoder(rw).Encode\<close> of a struct whose fields are strings: the object with the
  fields in the order of the struct, then a newline. A string is written between double
  quotes; the strings encoded here hold letters and spaces only, which the encoder does
  not escape.
\<close>

definition json_string :: "string \<Rightarrow> string" where
  "json_string s = [CHR 0x22] @ s @ [CHR 0x22]"

fun json_fields :: "(string \<times> string) list \<Rightarrow> string" where
  "json_fields [] = []"
| "json_fields [(k, v)] = json_string k @ '':'' @ json_string v"
| "json_fields ((k, v) # kvs) = json_string k @ '':'' @ json_string v @ '','' @ json_fields kvs"

definition Encode :: "(string \<times> string) list \<Rightarrow> ResponseWriter \<Rightarrow> ResponseWriter" where
  "Encode kvs rw = Write (''{'' @ json_fields kvs @ ''}'' @ [CHR 0x0A]) rw"

subsection \<open>The REST proxy\<close>

text \<open>
  The routing handler is the function given to \<open>NewRestProxy\<close>: it may rewrite the
  request it is given (the request is a pointer in Go) and returns an error or nil.
\<close>

type_synonym handler = "Request \<Rightarrow> string \<Rightarrow> string \<Rightarrow> Request \<times> error option"

text \<open>
  \<^verbatim>\<open>httputil.ReverseProxy\<close>, with the one field the package sets. \<open>ServeHTTP\<close> is the
  library's: it runs the director on the outgoing copy of the request, sends the result
  through the transport and copies the answer to the response writer; \<open>transport\<close> is
  what the default transport answers.
\<close>

record ReverseProxy =
  Director :: "Request \<Rightarrow> world \<Rightarrow> (panic \<times> world) + (Request \<times> world)"

type_synonym transport = "Request \<Rightarrow> ResponseWriter \<Rightarrow> ResponseWriter"

definition ServeHTTP ::
    "ReverseProxy \<Rightarrow> transport \<Rightarrow> ResponseWriter \<Rightarrow> Request \<Rightarrow> world
      \<Rightarrow> (panic \<times> world) + (ResponseWriter \<times> world)" where
  "ServeHTTP p tr rw req s =
     (case Director p req s of
        Inl e \<Rightarrow> Inl e
      | Inr (outreq, s1) \<Rightarrow> Inr (tr outreq rw, called (RoundTrip outreq) s1))"

text \<open>
  The struct \<^verbatim>\<open>RestProxy\<close>; its fields \<^verbatim>\<open>successCounter\<close> and \<^verbatim>\<open>errorCounter\<close> are never
  set or read and are left out.
\<close>

record RestProxy =
  RestProxy :: ReverseProxy

text \<open>The closure \<^verbatim>\<open>director\<close> of \<open>NewRestProxy\<close>.\<close>

definition director :: "handler \<Rightarrow> Request \<Rightarrow> world \<Rightarrow> (panic \<times> world) + (Request \<times> world)" where
  "director h req s =
     (let matches = FindStringSubmatch (URL req)
      in case index matches 1 of
           Inl p \<Rightarrow> Inl (p, s)
         | Inr name \<Rightarrow>
             (case index matches 3 of
                Inl p \<Rightarrow> Inl (p, s)
              | Inr version \<Rightarrow>
                  (let (req1, err) = h req name version;
                       s1 = called (HandlerCall req name version) s
                   in if err \<noteq> None
                      then Inr (req1, s1\<lparr>requestsInvalid := Inc ''rest'' (requestsInvalid s1)\<rparr>)
                      else Inr (req1, s1\<lparr>requestsInvalid := Inc ''rest'' (requestsInvalid s1)\<rparr>))))"

definition NewRestProxy :: "handler \<Rightarrow> world \<Rightarrow> RestProxy \<times> world" where
  "NewRestProxy h s =
     (let s1 = s\<lparr>requestsForwarded := Add ''rest'' 0 (requestsForwarded s)\<rparr>;
          s2 = s1\<lparr>requestsInvalid := Add ''rest'' 0 (requestsInvalid s1)\<rparr>
      in (\<lparr>RestProxy = \<lparr>Director = director h\<rparr>\<rparr>, s2))"

text \<open>The function that \<open>Serve\<close> returns, applied to a response writer and a request.\<close>

definition Serve ::
    "RestProxy \<Rightarrow> transport \<Rightarrow> ResponseWriter \<Rightarrow> Request \<Rightarrow> world
      \<Rightarrow> (panic \<times> world) + (ResponseWriter \<times> world)" where
  "Serve handler tr rw req s =
     (let matches = FindStringSubmatch (URL req)
      in case index matches 1 of
           Inl p \<Rightarrow> Inl (p, s)
         | Inr name \<Rightarrow>
             (case index matches 3 of
                Inl p \<Rightarrow> Inl (p, s)
              | Inr version \<Rightarrow>
                  if version = []
                  then (let rw1 = Header_Set ''Content-Type'' ''application/json'' rw;
                            rw2 = WriteHeader StatusBadRequest rw1;
                            rw3 = Encode [(''Status'', ''Error''),
                                          (''Message'', ''Model version must be provided'')] rw2
                        in Inr (rw3, s\<lparr>requestsInvalid := Inc ''rest'' (requestsInvalid s)\<rparr>))
                  else ServeHTTP (RestProxy handler) tr rw req
                         (s\<lparr>requestsForwarded := Inc ''rest'' (requestsForwarded s)\<rparr>)))"

subsection \<open>The gRPC proxy\<close>

text \<open>
  \<^verbatim>\<open>strconv.FormatInt(i, 10)\<close> of the library: the digits of the magnitude, taken as an
  unsigned 64-bit number (\<^verbatim>\<open>u = uint64(i); if neg { u = -u }\<close>), most significant first,
  after a minus sign when \<open>i\<close> is negative.
\<close>

definition digit_char :: "nat \<Rightarrow> char" where
  "digit_char d = char_of (48 + d)"

function formatBits10 :: "nat \<Rightarrow> string" where
  "formatBits10 u = (if u < 10 then [digit_char u]
                     else formatBits10 (u div 10) @ [digit_char (u mod 10)])"
  by pat_completeness auto
termination
  by (relation "measure id") auto

declare formatBits10.simps [simp del]

definition FormatInt10 :: "64 word \<Rightarrow> string" where
  "FormatInt10 i = (if sint i < 0 then CHR ''-'' # formatBits10 (unat (- i))
                    else formatBits10 (unat i))"

text \<open>
  The client provider is the function given to \<open>NewGrpcProxy\<close>. It follows Go's convention
  for a pair of a result and an error: an error, or a connection and no error.
\<close>

record proxyServiceServer =
  clientProvider :: "string \<Rightarrow> string \<Rightarrow> error + ClientConn"

text \<open>
  What the service behind a connection answers to a method called with a context and a
  request (\<^verbatim>\<open>pb.NewPredictionServiceClient(client).Predict(ctx, req)\<close> and the like): a
  response or nil, and an error or nil.
\<close>

type_synonym Context = nat

type_synonym remote =
  "rpc \<Rightarrow> ClientConn \<Rightarrow> Context \<Rightarrow> InferenceRequest \<Rightarrow> InferenceResponse option \<times> error option"

text \<open>
  \<^verbatim>\<open>status.Code(err)\<close> of the gRPC library, which decides the status a client sees: OK for
  nil, the code of an error that carries a status, and Unknown for every other error.
\<close>

definition OK :: nat where
  "OK = 0"

definition Unknown :: nat where
  "Unknown = 2"

definition Unimplemented :: nat where
  "Unimplemented = 12"

fun Code :: "error option \<Rightarrow> nat" where
  "Code None = OK"
| "Code (Some (statusError c msg)) = c"
| "Code (Some (errorString msg)) = Unknown"

text \<open>
  Of the struct \<^verbatim>\<open>GrpcProxy\<close> the embedding keeps the service implementation. Its server
  and its listener belong to \<open>Listen\<close> and \<open>Close\<close>, which run the library's server in
  one goroutine and stop it from another; they are outside this embedding.
\<close>

record GrpcProxy =
  serverImpl :: proxyServiceServer

definition NewGrpcProxy :: "(string \<Rightarrow> string \<Rightarrow> error + ClientConn) \<Rightarrow> world \<Rightarrow> GrpcProxy \<times> world" where
  "NewGrpcProxy provider s =
     (let s1 = s\<lparr>requestsForwarded := Add ''grpc'' 0 (requestsForwarded s)\<rparr>;
          s2 = s1\<lparr>requestsInvalid := Add ''grpc'' 0 (requestsInvalid s1)\<rparr>
      in (\<lparr>serverImpl = \<lparr>clientProvider = provider\<rparr>\<rparr>, s2))"

definition clientForSpec ::
    "proxyServiceServer \<Rightarrow> ModelSpec option \<Rightarrow> world \<Rightarrow> (error + ClientConn) \<times> world" where
  "clientForSpec server modelSpec s =
     (let modelName = GetName modelSpec;
          modelVersion = FormatInt10 (GetValue (GetVersion modelSpec))
      in (clientProvider server modelName modelVersion,
          called (ClientProviderCall modelName modelVersion) s))"

definition Classify ::
    "proxyServiceServer \<Rightarrow> remote \<Rightarrow> Context \<Rightarrow> InferenceRequest \<Rightarrow> world
      \<Rightarrow> (InferenceResponse option \<times> error option) \<times> world" where
  "Classify server service ctx req s =
     (case clientForSpec server (GetModelSpec req) s of
        (Inl err, s1) \<Rightarrow>
          ((None, Some err), s1\<lparr>requestsInvalid := Inc ''grpc'' (requestsInvalid s1)\<rparr>)
      | (Inr client, s1) \<Rightarrow>
          (let res = service rpcClassify client ctx req;
               s2 = called (RemoteCall rpcClassify client ctx req) s1
           in (res, s2\<lparr>requestsForwarded := Inc ''grpc'' (requestsForwarded s2)\<rparr>)))"

definition Regress ::
    "proxyServiceServer \<Rightarrow> remote \<Rightarrow> Context \<Rightarrow> InferenceRequest \<Rightarrow> world
      \<Rightarrow> (InferenceResponse option \<times> error option) \<times> world" where
  "Regress server service ctx req s =
     (case clientForSpec server (GetModelSpec req) s of
        (Inl err, s1) \<Rightarrow>
          ((None, Some err), s1\<lparr>requestsInvalid := Inc ''grpc'' (requestsInvalid s1)\<rparr>)
      | (Inr client, s1) \<Rightarrow>
          (let res = service rpcRegress client ctx req;
               s2 = called (RemoteCall rpcRegress client ctx req) s1
           in (res, s2\<lparr>requestsForwarded := Inc ''grpc'' (requestsForwarded s2)\<rparr>)))"

definition Predict ::
    "proxyServiceServer \<Rightarrow> remote \<Rightarrow> Context \<Rightarrow> InferenceRequest \<Rightarrow> world
      \<Rightarrow> (InferenceResponse option \<times> error option) \<times> world" where
  "Predict server service ctx req s =
     (case clientForSpec server (GetModelSpec req) s of
        (Inl err, s1) \<Rightarrow>
          ((None, Some err), s1\<lparr>requestsInvalid := Inc ''grpc'' (requestsInvalid s1)\<rparr>)
      | (Inr client, s1) \<Rightarrow>
          (let res = service rpcPredict client ctx req;
               s2 = called (RemoteCall rpcPredict client ctx req) s1
           in (res, s2\<lparr>requestsForwarded := Inc ''grpc'' (requestsForwarded s2)\<rparr>)))"

definition MultiInference ::
    "proxyServiceServer \<Rightarrow> Context \<Rightarrow> InferenceRequest \<Rightarrow> world
      \<Rightarrow> (InferenceResponse option \<times> error option) \<times> world" where
  "MultiInference server ctx req s =
     ((None, Some (errorString ''MultiInference not supported'')), s)"

definition GetModelMetadata ::
    "proxyServiceServer \<Rightarrow> remote \<Rightarrow> Context \<Rightarrow> InferenceRequest \<Rightarrow> world
      \<Rightarrow> (InferenceResponse option \<times> error option) \<times> world" where
  "GetModelMetadata server service ctx req s =
     (case clientForSpec server (GetModelSpec req) s of
        (Inl err, s1) \<Rightarrow>
          ((None, Some err), s1\<lparr>requestsInvalid := Inc ''grpc'' (requestsInvalid s1)\<rparr>)
      | (Inr client, s1) \<Rightarrow>
          (let res = service rpcGetModelMetadata client ctx req;
               s2 = called (RemoteCall rpcGetModelMetadata client ctx req) s1
           in (res, s2\<lparr>requestsForwarded := Inc ''grpc'' (requestsForwarded s2)\<rparr>)))"

definition SessionRun ::
    "proxyServiceServer \<Rightarrow> remote \<Rightarrow> Context \<Rightarrow> InferenceRequest \<Rightarrow> world
      \<Rightarrow> (InferenceResponse option \<times> error option) \<times> world" where
  "SessionRun server service ctx req s =
     (case clientForSpec server (GetModelSpec req) s of
        (Inl err, s1) \<Rightarrow>
          ((None, Some err), s1\<lparr>requestsInvalid := Inc ''grpc'' (requestsInvalid s1)\<rparr>)
      | (Inr client, s1) \<Rightarrow>
          (let res = service rpcSessionRun client ctx req;
               s2 = called (RemoteCall rpcSessionRun client ctx req) s1
           in (res, s2\<lparr>requestsForwarded := Inc ''grpc'' (requestsForwarded s2)\<rparr>)))"

section \<open>Notions of the specification\<close>

text \<open>
  The specification speaks of letters and digits, of a path that names a model and a
  version, and of the decimal rendering of a number. These definitions follow its words;
  the theorems below relate them to the code.
\<close>

text \<open>The class \<^verbatim>\<open>[a-z0-9]\<close> read by itself: a lowercase ASCII letter or a digit.\<close>

definition in_az09 :: "char \<Rightarrow> bool" where
  "in_az09 c = (is_lower c \<or> is_digit c)"

text \<open>An ASCII letter of either case or a digit.\<close>

definition is_alnum :: "char \<Rightarrow> bool" where
  "is_alnum c = (is_lower c \<or> is_upper c \<or> is_digit c)"

text \<open>Two texts are equal up to the case of their ASCII letters.\<close>

definition fold_eq :: "string \<Rightarrow> string \<Rightarrow> bool" where
  "fold_eq a b = (map lower a = map lower b)"

text \<open>
  The URL starts, up to case, with \<^verbatim>\<open>/v1/models/{name}/versions/{version}\<close>, the name a
  non-empty run of ASCII letters and digits and the version a non-empty run of digits;
  anything may follow.
\<close>

definition versioned_model_path :: "string \<Rightarrow> bool" where
  "versioned_model_path u =
     (\<exists>p name q version rest.
        u = p @ name @ q @ version @ rest \<and>
        fold_eq p ''/v1/models/'' \<and> name \<noteq> [] \<and> list_all is_alnum name \<and>
        fold_eq q ''/versions/'' \<and> version \<noteq> [] \<and> list_all is_digit version)"

text \<open>
  The model-name segment of a URL: what stands between the eleven characters of
  \<^verbatim>\<open>/v1/models/\<close> and the next slash.
\<close>

definition name_segment :: "string \<Rightarrow> string" where
  "name_segment u = takeWhile (\<lambda>c. c \<noteq> CHR ''/'') (drop 11 u)"

text \<open>
  The state a run ends in, whether it returned or panicked. A request was forwarded when
  this state has more calls than the state the run began in.
\<close>

definition state_after :: "(panic \<times> world) + ('a \<times> world) \<Rightarrow> world" where
  "state_after r = (case r of Inl (p, s) \<Rightarrow> s | Inr (x, s) \<Rightarrow> s)"

text \<open>
  The value of a text of decimal digits, and the decimal rendering of an integer: a minus
  sign when it is negative, then the digits of its magnitude with no leading zero.
\<close>

definition digit_value :: "char \<Rightarrow> nat" where
  "digit_value c = of_char c - 48"

definition decimal_value :: "string \<Rightarrow> nat" where
  "decimal_value ds = foldl (\<lambda>a c. 10 * a + digit_value c) 0 ds"

definition decimal_digits :: "string \<Rightarrow> nat \<Rightarrow> bool" where
  "decimal_digits ds n =
     (ds \<noteq> [] \<and> list_all is_digit ds \<and> (if hd ds = CHR ''0'' then ds = ''0'' else True) \<and>
      decimal_value ds = n)"

definition decimal_rendering :: "string \<Rightarrow> int \<Rightarrow> bool" where
  "decimal_rendering str i =
     (if i < 0
      then (case str of [] \<Rightarrow> False | c # ds \<Rightarrow> c = CHR ''-'' \<and> decimal_digits ds (nat (- i)))
      else decimal_digits str (nat i))"

text \<open>The names and versions the client provider was called with, among the calls made.\<close>

fun provider_calls :: "call list \<Rightarrow> (string \<times> string) list" where
  "provider_calls [] = []"
| "provider_calls (ClientProviderCall name version # cs) = (name, version) # provider_calls cs"
| "provider_calls (c # cs) = provider_calls cs"

section \<open>Inputs of the examples\<close>

text \<open>
  A state with all counters at zero and no call made, a routing handler that accepts every
  request and one that refuses every request (both leave the request as it is), a
  transport whose answer leaves the response writer untouched, and a request for a URL.
\<close>

definition world0 :: world where
  "world0 = \<lparr>requestsForwarded = (\<lambda>l. 0), requestsInvalid = (\<lambda>l. 0), calls = []\<rparr>"

definition route_ok :: handler where
  "route_ok req name version = (req, None)"

definition route_fail :: handler where
  "route_fail req name version = (req, Some (errorString ''no node''))"

definition silent :: transport where
  "silent req rw = rw"

definition request :: "string \<Rightarrow> Request" where
  "request u = \<lparr>URL = u\<rparr>"

text \<open>
  For the gRPC proxy: a client provider that finds a connection for every model, one
  that finds none and one that finds a connection for version 7 of resnet only, a remote
  service that answers with the payload of the request and one
  that answers with an error, and requests with and without a model specification.
\<close>

definition provider_ok :: "string \<Rightarrow> string \<Rightarrow> error + ClientConn" where
  "provider_ok name version = Inr (ClientConn ''node1:8095'')"

definition provider_fail :: "string \<Rightarrow> string \<Rightarrow> error + ClientConn" where
  "provider_fail name version = Inl (errorString (''no node for '' @ name @ '':'' @ version))"

definition provider_resnet_7 :: "string \<Rightarrow> string \<Rightarrow> error + ClientConn" where
  "provider_resnet_7 name version =
     (if name = ''resnet'' \<and> version = ''7'' then Inr (ClientConn ''node1:8095'')
      else Inl (errorString (''no node for '' @ name @ '':'' @ version)))"

definition service_echo :: remote where
  "service_echo m client ctx req = (Some (Payload req), None)"

definition service_down :: remote where
  "service_down m client ctx req = (None, Some (statusError 14 ''unavailable''))"

definition request_resnet_7 :: InferenceRequest where
  "request_resnet_7 =
     \<lparr>ModelSpec = Some \<lparr>Name = ''resnet'', Version = Some \<lparr>Value = 7\<rparr>\<rparr>, Payload = ''x''\<rparr>"

definition request_no_version :: InferenceRequest where
  "request_no_version = \<lparr>ModelSpec = Some \<lparr>Name = ''resnet'', Version = None\<rparr>, Payload = ''x''\<rparr>"

definition request_no_spec :: InferenceRequest where
  "request_no_spec = \<lparr>ModelSpec = None, Payload = ''x''\<rparr>"

section \<open>Properties of the REST proxy\<close>

lemma FindStringSubmatch_shape:
  "FindStringSubmatch u = [] \<or> (\<exists>m name g version. FindStringSubmatch u = [m, name, g, version])"
  by (auto simp: FindStringSubmatch_def Let_def split: option.splits)

lemma bad_request_response:
  \<open>Encode [(''Status'', ''Error''), (''Message'', ''Model version must be provided'')]
     (WriteHeader StatusBadRequest
       (Header_Set ''Content-Type'' ''application/json'' newResponseWriter)) =
   \<lparr>Header = [''Content-Type'' \<mapsto> ''application/json''], statusCode = Some 400,
    body = ''{"Status":"Error","Message":"Model version must be provided"}'' @ [CHR 0x0A]\<rparr>\<close>
  by (simp add: Encode_def Write_def WriteHeader_def Header_Set_def newResponseWriter_def
      StatusBadRequest_def json_string_def)

lemma Serve_bad_request:
  assumes \<open>FindStringSubmatch (URL req) = [m, name, g, []]\<close>
  shows \<open>Serve P tr newResponseWriter req s =
    Inr (\<lparr>Header = [''Content-Type'' \<mapsto> ''application/json''], statusCode = Some 400,
          body = ''{"Status":"Error","Message":"Model version must be provided"}'' @ [CHR 0x0A]\<rparr>,
         s\<lparr>requestsInvalid := (requestsInvalid s)(''rest'' := requestsInvalid s ''rest'' + 1)\<rparr>)\<close>
  using assms by (simp add: Serve_def index_def bad_request_response Inc_def Add_def)

text \<open>
  C1. A request whose URL matches the pattern (the slice of submatches is not nil) without
  a version (submatch 3 is empty) is answered locally: on the fresh response writer of the
  request, \<open>Serve\<close> sets the content type to JSON, writes status 400 and the JSON object
  with the fields Status and Message (the encoder ends the document with a newline).
  The counter \<^verbatim>\<open>requestsInvalid\<close> labelled rest goes up by one and nothing else of the
  state changes: \<^verbatim>\<open>requestsForwarded\<close> keeps its values and no call is made, neither to
  the routing handler nor to the transport of the reverse proxy.
\<close>

theorem Serve_missing_version:
  assumes \<open>FindStringSubmatch (URL req) \<noteq> []\<close> and \<open>FindStringSubmatch (URL req) ! 3 = []\<close>
  shows \<open>Serve handler tr newResponseWriter req s =
    Inr (\<lparr>Header = [''Content-Type'' \<mapsto> ''application/json''], statusCode = Some 400,
          body = ''{"Status":"Error","Message":"Model version must be provided"}'' @ [CHR 0x0A]\<rparr>,
         s\<lparr>requestsInvalid := (requestsInvalid s)(''rest'' := requestsInvalid s ''rest'' + 1)\<rparr>)\<close>
proof -
  from assms(1) FindStringSubmatch_shape [of \<open>URL req\<close>]
  obtain m name g version where ms: \<open>FindStringSubmatch (URL req) = [m, name, g, version]\<close>
    by auto
  with assms(2) have \<open>version = []\<close>
    by simp
  with ms show ?thesis
    by (simp add: Serve_bad_request)
qed

theorem Serve_missing_version_witness:
  \<open>FindStringSubmatch (URL (request ''/v1/models/resnet:predict'')) \<noteq> [] \<and>
   FindStringSubmatch (URL (request ''/v1/models/resnet:predict'')) ! 3 = [] \<and>
   Serve (fst (NewRestProxy route_ok world0)) silent newResponseWriter
     (request ''/v1/models/resnet:predict'') world0 =
    Inr (\<lparr>Header = [''Content-Type'' \<mapsto> ''application/json''], statusCode = Some 400,
          body = ''{"Status":"Error","Message":"Model version must be provided"}'' @ [CHR 0x0A]\<rparr>,
         world0\<lparr>requestsInvalid := (requestsInvalid world0)(''rest'' := 1)\<rparr>)\<close>
proof -
  have m: \<open>FindStringSubmatch ''/v1/models/resnet:predict'' =
      [''/v1/models/resnet'', ''resnet'', [], []]\<close>
    by code_simp
  have h1: \<open>FindStringSubmatch (URL (request ''/v1/models/resnet:predict'')) \<noteq> []\<close>
    by (simp add: m request_def)
  have h2: \<open>FindStringSubmatch (URL (request ''/v1/models/resnet:predict'')) ! 3 = []\<close>
    by (simp add: m request_def)
  show ?thesis
    using h1 h2 Serve_missing_version [OF h1 h2, of \<open>fst (NewRestProxy route_ok world0)\<close> silent world0]
    by (simp add: world0_def)
qed

lemma of_char_lower:
  "(of_char (lower c) :: nat) = (if is_upper c then of_char c + 32 else of_char c)"
  by (simp add: lower_def is_upper_def)

lemma in_az09_fold_alnum: "in_az09_fold c = is_alnum c"
  by (auto simp: in_az09_fold_def is_alnum_def is_lower_def is_digit_def of_char_lower is_upper_def)

lemma lower_slash: "lower c = CHR ''/'' \<Longrightarrow> c = CHR ''/''"
proof -
  assume a: "lower c = CHR ''/''"
  have "(of_char (lower c) :: nat) = 47" by (simp add: a)
  then have "\<not> is_upper c" by (auto simp: of_char_lower is_upper_def split: if_splits)
  with a show ?thesis by (simp add: lower_def)
qed

lemma slash_not_alnum: "\<not> in_az09_fold (CHR ''/'')"
  by (simp add: in_az09_fold_def lower_def is_upper_def is_lower_def is_digit_def)

lemma lit_fold_Some: "lit_fold p s = Some (m, r) \<Longrightarrow> s = m @ r \<and> fold_eq m p"
proof (induction p s arbitrary: m r rule: lit_fold.induct)
  case (1 s)
  then show ?case by (simp add: fold_eq_def)
next
  case (2 p ps)
  then show ?case by simp
next
  case (3 p ps c cs)
  then show ?case by (auto simp: fold_eq_def split: if_splits option.splits)
qed

lemma lit_fold_append: "fold_eq m p \<Longrightarrow> lit_fold p (m @ r) = Some (m, r)"
proof (induction p "m @ r" arbitrary: m r rule: lit_fold.induct)
  case (1 s)
  then show ?case by (simp add: fold_eq_def)
next
  case (2 p ps)
  then show ?case by (simp add: fold_eq_def)
next
  case (3 p ps c cs)
  then show ?case by (cases m) (auto simp: fold_eq_def)
qed


lemma fold_eq_slash_head:
  assumes "fold_eq q (CHR ''/'' # l)"
  shows "\<exists>q'. q = CHR ''/'' # q'"
proof (cases q)
  case Nil
  with assms show ?thesis by (simp add: fold_eq_def)
next
  case (Cons c q')
  with assms have "lower c = lower (CHR ''/'')" by (simp add: fold_eq_def)
  then have "lower c = CHR ''/''" by (simp add: lower_def is_upper_def)
  then have "c = CHR ''/''" by (rule lower_slash)
  with Cons show ?thesis by simp
qed

lemma takeWhile_run:
  assumes "list_all P xs" and "\<not> P y"
  shows "takeWhile P (xs @ y # ys) = xs" and "dropWhile P (xs @ y # ys) = y # ys"
  using assms by (induction xs) auto

lemma takeWhile_nonempty:
  assumes "list_all P xs" and "xs \<noteq> []"
  shows "takeWhile P (xs @ ys) \<noteq> []"
  using assms by (cases xs) auto

lemma version_group_Some:
  "version_group s = Some (g, version) \<Longrightarrow>
     \<exists>q rest. s = q @ version @ rest \<and> g = q @ version \<and> fold_eq q ''/versions/'' \<and>
       version \<noteq> [] \<and> list_all is_digit version"
proof -
  assume a: "version_group s = Some (g, version)"
  then obtain q r where l: "lit_fold ''/versions/'' s = Some (q, r)"
    by (auto simp: version_group_def split: option.splits)
  with a have v: "version = takeWhile is_digit r" "version \<noteq> []" "g = q @ version"
    by (auto simp: version_group_def Let_def split: if_splits)
  from l have s: "s = q @ r" and f: "fold_eq q ''/versions/''"
    using lit_fold_Some by blast+
  have "r = version @ dropWhile is_digit r" by (simp add: v)
  moreover have "list_all is_digit version"
    by (simp add: v list_all_iff) (meson set_takeWhileD)
  ultimately show ?thesis using s f v by blast
qed

lemma version_group_path:
  assumes "fold_eq q ''/versions/''" and "version \<noteq> []" and "list_all is_digit version"
  shows "\<exists>g v. version_group (q @ version @ rest) = Some (g, v) \<and> v \<noteq> []"
proof -
  have "lit_fold ''/versions/'' (q @ version @ rest) = Some (q, version @ rest)"
    using assms(1) by (rule lit_fold_append)
  moreover have "takeWhile is_digit (version @ rest) \<noteq> []"
    using assms(3,2) by (rule takeWhile_nonempty)
  ultimately show ?thesis by (simp add: version_group_def Let_def)
qed

lemma FindStringSubmatch_version:
  assumes "FindStringSubmatch u = [m, name, g, version]" and "version \<noteq> []"
  shows "versioned_model_path u \<and> name \<noteq> [] \<and> list_all is_alnum name \<and> list_all is_digit version"
proof -
  from assms obtain p r where l: "lit_fold ''/v1/models/'' u = Some (p, r)"
    by (auto simp: FindStringSubmatch_def split: option.splits)
  with assms have n: "name = takeWhile in_az09_fold r" "name \<noteq> []"
    by (auto simp: FindStringSubmatch_def Let_def split: if_splits option.splits)
  with l assms have vg: "version_group (dropWhile in_az09_fold r) = Some (g, version)"
    by (auto simp: FindStringSubmatch_def Let_def split: if_splits option.splits)
  from l have u: "u = p @ r" and f: "fold_eq p ''/v1/models/''"
    using lit_fold_Some by blast+
  from version_group_Some [OF vg] obtain q rest where
    d: "dropWhile in_az09_fold r = q @ version @ rest" and q: "fold_eq q ''/versions/''"
    and v: "list_all is_digit version"
    by blast
  have "r = name @ dropWhile in_az09_fold r" by (simp add: n)
  with d u have "u = p @ name @ q @ version @ rest" by simp
  moreover have na: "list_all is_alnum name"
    by (simp add: n list_all_iff in_az09_fold_alnum [symmetric]) (meson set_takeWhileD)
  ultimately have "versioned_model_path u"
    unfolding versioned_model_path_def using f n(2) q assms(2) v by blast
  with n(2) na v show ?thesis by simp
qed

lemma versioned_model_path_match:
  assumes "versioned_model_path u"
  shows "\<exists>m name g version. FindStringSubmatch u = [m, name, g, version] \<and> version \<noteq> []"
proof -
  from assms obtain p name q version rest where
    u: "u = p @ name @ q @ version @ rest" and p: "fold_eq p ''/v1/models/''"
    and n: "name \<noteq> []" "list_all is_alnum name" and q: "fold_eq q ''/versions/''"
    and v: "version \<noteq> []" "list_all is_digit version"
    unfolding versioned_model_path_def by blast
  from q obtain q' where q': "q = CHR ''/'' # q'"
    using fold_eq_slash_head by auto
  have n': "list_all in_az09_fold name"
    using n(2) by (simp add: list_all_iff in_az09_fold_alnum)
  have l: "lit_fold ''/v1/models/'' u = Some (p, name @ q @ version @ rest)"
    unfolding u using p by (rule lit_fold_append)
  have t: "takeWhile in_az09_fold (name @ q @ version @ rest) = name"
    unfolding q' using takeWhile_run(1) [OF n' slash_not_alnum] by simp
  have d: "dropWhile in_az09_fold (name @ q @ version @ rest) = q @ version @ rest"
    unfolding q' using takeWhile_run(2) [OF n' slash_not_alnum] by simp
  from version_group_path [OF q v] obtain g v' where
    "version_group (q @ version @ rest) = Some (g, v')" and "v' \<noteq> []"
    by blast
  with l t d n(1) show ?thesis
    by (simp add: FindStringSubmatch_def)
qed

lemma director_match:
  assumes "FindStringSubmatch (URL req) = [m, name, g, version]"
  shows "director h req s =
    Inr (fst (h req name version),
         s\<lparr>requestsInvalid := (requestsInvalid s)(''rest'' := requestsInvalid s ''rest'' + 1),
           calls := calls s @ [HandlerCall req name version]\<rparr>)"
  using assms
  by (simp add: director_def index_def called_def Inc_def Add_def split: prod.splits)

lemma Serve_forward:
  assumes "FindStringSubmatch (URL req) = [m, name, g, version]" and "version \<noteq> []"
  shows "Serve (fst (NewRestProxy h s0)) tr rw req s =
    Inr (tr (fst (h req name version)) rw,
         s\<lparr>requestsForwarded := (requestsForwarded s)(''rest'' := requestsForwarded s ''rest'' + 1),
           requestsInvalid := (requestsInvalid s)(''rest'' := requestsInvalid s ''rest'' + 1),
           calls := calls s @ [HandlerCall req name version, RoundTrip (fst (h req name version))]\<rparr>)"
  using assms
  by (simp add: Serve_def index_def NewRestProxy_def ServeHTTP_def director_match [OF assms(1)]
      called_def Inc_def Add_def)

lemma Serve_no_match:
  assumes "FindStringSubmatch (URL req) = []"
  shows "Serve P tr rw req s = Inl (IndexOutOfRange 1 0, s)"
  using assms by (simp add: Serve_def index_def)

lemma Serve_no_version:
  assumes "FindStringSubmatch (URL req) = [m, name, g, []]"
  shows "\<exists>rw'. Serve P tr rw req s =
     Inr (rw', s\<lparr>requestsInvalid := (requestsInvalid s)(''rest'' := requestsInvalid s ''rest'' + 1)\<rparr>)"
  using assms by (simp add: Serve_def index_def Inc_def Add_def)

text \<open>Submatches of the URLs of the examples, computed from the pattern.\<close>

lemma match_ResNet_1:
  "FindStringSubmatch ''/v1/models/ResNet/versions/1'' =
     [''/v1/models/ResNet/versions/1'', ''ResNet'', ''/versions/1'', ''1'']"
  by code_simp

lemma match_resnet:
  "FindStringSubmatch ''/v1/models/resnet'' = [''/v1/models/resnet'', ''resnet'', [], []]"
  by code_simp

lemma match_resnet_7:
  "FindStringSubmatch ''/v1/models/resnet/versions/7:predict'' =
     [''/v1/models/resnet/versions/7'', ''resnet'', ''/versions/7'', ''7'']"
  by code_simp

lemma match_no_name: "FindStringSubmatch ''/v1/models/'' = []"
  by code_simp

text \<open>
  C2. When the URL of the request matches the pattern, as it does for every request that
  \<open>Serve\<close> passes on, the director calls the routing handler with the submatches 1 and 3
  and then adds one to \<^verbatim>\<open>requestsInvalid\<close> labelled rest, whatever the handler returns:
  the state after the director does not depend on the handler's error. Nothing else of
  the state changes, so \<^verbatim>\<open>requestsForwarded\<close> is not incremented in any branch.
\<close>

theorem director_counts_invalid:
  assumes "FindStringSubmatch (URL req) \<noteq> []"
  shows "director h req s =
    Inr (fst (h req (FindStringSubmatch (URL req) ! 1) (FindStringSubmatch (URL req) ! 3)),
         s\<lparr>requestsInvalid := (requestsInvalid s)(''rest'' := requestsInvalid s ''rest'' + 1),
           calls := calls s @ [HandlerCall req (FindStringSubmatch (URL req) ! 1)
                                 (FindStringSubmatch (URL req) ! 3)]\<rparr>)"
proof -
  from assms FindStringSubmatch_shape [of "URL req"]
  obtain m name g version where ms: "FindStringSubmatch (URL req) = [m, name, g, version]"
    by auto
  show ?thesis
    using director_match [OF ms] by (simp add: ms)
qed

theorem director_counts_invalid_witness:
  "FindStringSubmatch (URL (request ''/v1/models/resnet/versions/7:predict'')) \<noteq> [] \<and>
   director route_ok (request ''/v1/models/resnet/versions/7:predict'') world0 =
     Inr (request ''/v1/models/resnet/versions/7:predict'',
          world0\<lparr>requestsInvalid := (requestsInvalid world0)(''rest'' := 1),
                 calls := [HandlerCall (request ''/v1/models/resnet/versions/7:predict'')
                             ''resnet'' ''7'']\<rparr>) \<and>
   director route_fail (request ''/v1/models/resnet/versions/7:predict'') world0 =
     Inr (request ''/v1/models/resnet/versions/7:predict'',
          world0\<lparr>requestsInvalid := (requestsInvalid world0)(''rest'' := 1),
                 calls := [HandlerCall (request ''/v1/models/resnet/versions/7:predict'')
                             ''resnet'' ''7'']\<rparr>)"
proof -
  have h: "FindStringSubmatch (URL (request ''/v1/models/resnet/versions/7:predict'')) \<noteq> []"
    by (simp add: request_def match_resnet_7)
  show ?thesis
    using h director_counts_invalid [OF h, of route_ok world0]
      director_counts_invalid [OF h, of route_fail world0]
    by (simp add: request_def match_resnet_7 route_ok_def route_fail_def world0_def)
qed

lemma fold_eq_length: "fold_eq a b \<Longrightarrow> length a = length b"
  unfolding fold_eq_def by (rule map_eq_imp_length_eq)

lemma alnum_not_slash: "is_alnum c \<Longrightarrow> c \<noteq> CHR ''/''"
  using slash_not_alnum by (auto simp: in_az09_fold_alnum)

lemma versioned_model_path_segment:
  assumes "versioned_model_path u"
  shows "list_all is_alnum (name_segment u)"
proof -
  from assms obtain p name q version rest where
    u: "u = p @ name @ q @ version @ rest" and p: "fold_eq p ''/v1/models/''"
    and n: "list_all is_alnum name" and q: "fold_eq q ''/versions/''"
    unfolding versioned_model_path_def by blast
  from q obtain q' where q': "q = CHR ''/'' # q'"
    using fold_eq_slash_head by auto
  from p have "length p = 11"
    using fold_eq_length by fastforce
  then have d: "drop 11 u = name @ CHR ''/'' # q' @ version @ rest"
    by (simp add: u q')
  have "list_all (\<lambda>c. c \<noteq> CHR ''/'') name"
    using n alnum_not_slash by (auto simp: list_all_iff)
  then have "takeWhile (\<lambda>c. c \<noteq> CHR ''/'') (name @ CHR ''/'' # q' @ version @ rest) = name"
    by (rule takeWhile_run(1)) simp
  with d n show ?thesis
    by (simp add: name_segment_def)
qed

lemma Serve_not_forwarded:
  assumes "\<not> versioned_model_path (URL req)"
  shows "calls (state_after (Serve P tr rw req s)) = calls s \<and>
         requestsForwarded (state_after (Serve P tr rw req s)) = requestsForwarded s"
proof -
  from FindStringSubmatch_shape [of "URL req"]
  consider "FindStringSubmatch (URL req) = []"
    | m name g where "FindStringSubmatch (URL req) = [m, name, g, []]"
    | m name g version where "FindStringSubmatch (URL req) = [m, name, g, version]" "version \<noteq> []"
    by blast
  then show ?thesis
  proof cases
    case 1
    from Serve_no_match [OF 1, of P tr rw s] show ?thesis
      by (simp add: state_after_def)
  next
    case 2
    from Serve_no_version [OF 2, of P tr rw s] show ?thesis
      by (auto simp: state_after_def)
  next
    case 3
    with assms show ?thesis
      using FindStringSubmatch_version by blast
  qed
qed

lemma Serve_forwarded:
  assumes "versioned_model_path (URL req)"
  shows "\<exists>name version.
     name \<noteq> [] \<and> list_all is_alnum name \<and> version \<noteq> [] \<and> list_all is_digit version \<and>
     Serve (fst (NewRestProxy h s0)) tr rw req s =
       Inr (tr (fst (h req name version)) rw,
            s\<lparr>requestsForwarded :=
                 (requestsForwarded s)(''rest'' := requestsForwarded s ''rest'' + 1),
              requestsInvalid := (requestsInvalid s)(''rest'' := requestsInvalid s ''rest'' + 1),
              calls := calls s @ [HandlerCall req name version,
                                  RoundTrip (fst (h req name version))]\<rparr>)"
proof -
  from assms obtain m name g version where
    ms: "FindStringSubmatch (URL req) = [m, name, g, version]" and v: "version \<noteq> []"
    using versioned_model_path_match by blast
  from FindStringSubmatch_version [OF ms v] Serve_forward [OF ms v, of h s0 tr rw s] v
  show ?thesis
    by blast
qed

text \<open>
  C3, as the code has it. The pattern carries the flag \<^verbatim>\<open>(?i)\<close>, it is anchored at the
  start only, and \<open>Serve\<close> rejects a URL without a version. So the proxy forwards a
  request (it makes a call: to the routing handler and then to the transport) exactly when
  the URL starts, up to the case of ASCII letters, with
  \<^verbatim>\<open>/v1/models/{name}/versions/{version}\<close>, where the name is a non-empty run of ASCII
  letters of either case and digits and the version a non-empty run of digits; what
  follows the version is not looked at.

  When the URL is of that form, the routing handler is called with a name and a version
  made of such characters, the transport with the request the handler returns, and both
  counters labelled rest go up by one. When it is not, the run ends with no call made and
  \<^verbatim>\<open>requestsForwarded\<close> as it was. In particular a URL whose model-name segment has a
  character that is neither an ASCII letter nor a digit is not forwarded.
\<close>

theorem Serve_forwards_iff:
  "(versioned_model_path (URL req) \<longleftrightarrow>
      calls (state_after (Serve (fst (NewRestProxy h s0)) tr rw req s)) \<noteq> calls s) \<and>
   (versioned_model_path (URL req) \<longrightarrow>
      (\<exists>name version.
         name \<noteq> [] \<and> list_all is_alnum name \<and> version \<noteq> [] \<and> list_all is_digit version \<and>
         Serve (fst (NewRestProxy h s0)) tr rw req s =
           Inr (tr (fst (h req name version)) rw,
                s\<lparr>requestsForwarded :=
                     (requestsForwarded s)(''rest'' := requestsForwarded s ''rest'' + 1),
                  requestsInvalid :=
                     (requestsInvalid s)(''rest'' := requestsInvalid s ''rest'' + 1),
                  calls := calls s @ [HandlerCall req name version,
                                      RoundTrip (fst (h req name version))]\<rparr>))) \<and>
   (\<not> versioned_model_path (URL req) \<longrightarrow>
      calls (state_after (Serve (fst (NewRestProxy h s0)) tr rw req s)) = calls s \<and>
      requestsForwarded (state_after (Serve (fst (NewRestProxy h s0)) tr rw req s)) =
        requestsForwarded s) \<and>
   (\<not> list_all is_alnum (name_segment (URL req)) \<longrightarrow>
      calls (state_after (Serve (fst (NewRestProxy h s0)) tr rw req s)) = calls s)"
proof (intro conjI impI)
  show "versioned_model_path (URL req) \<longleftrightarrow>
      calls (state_after (Serve (fst (NewRestProxy h s0)) tr rw req s)) \<noteq> calls s"
  proof
    assume "versioned_model_path (URL req)"
    from Serve_forwarded [OF this, of h s0 tr rw s]
    show "calls (state_after (Serve (fst (NewRestProxy h s0)) tr rw req s)) \<noteq> calls s"
      by (auto simp: state_after_def)
  next
    assume "calls (state_after (Serve (fst (NewRestProxy h s0)) tr rw req s)) \<noteq> calls s"
    then show "versioned_model_path (URL req)"
      using Serve_not_forwarded [of req "fst (NewRestProxy h s0)" tr rw s] by blast
  qed
next
  assume "versioned_model_path (URL req)"
  then show "\<exists>name version.
         name \<noteq> [] \<and> list_all is_alnum name \<and> version \<noteq> [] \<and> list_all is_digit version \<and>
         Serve (fst (NewRestProxy h s0)) tr rw req s =
           Inr (tr (fst (h req name version)) rw,
                s\<lparr>requestsForwarded :=
                     (requestsForwarded s)(''rest'' := requestsForwarded s ''rest'' + 1),
                  requestsInvalid :=
                     (requestsInvalid s)(''rest'' := requestsInvalid s ''rest'' + 1),
                  calls := calls s @ [HandlerCall req name version,
                                      RoundTrip (fst (h req name version))]\<rparr>)"
    by (rule Serve_forwarded)
next
  assume n: "\<not> versioned_model_path (URL req)"
  from Serve_not_forwarded [OF n, of "fst (NewRestProxy h s0)" tr rw s]
  show "calls (state_after (Serve (fst (NewRestProxy h s0)) tr rw req s)) = calls s"
    and "requestsForwarded (state_after (Serve (fst (NewRestProxy h s0)) tr rw req s)) =
        requestsForwarded s"
    by simp_all
next
  assume "\<not> list_all is_alnum (name_segment (URL req))"
  then have "\<not> versioned_model_path (URL req)"
    using versioned_model_path_segment by blast
  from Serve_not_forwarded [OF this, of "fst (NewRestProxy h s0)" tr rw s]
  show "calls (state_after (Serve (fst (NewRestProxy h s0)) tr rw req s)) = calls s"
    by simp
qed

text \<open>
  The theorem at four URLs: a model name with capital letters and a version is forwarded;
  a URL with no version, a URL that the pattern does not match, and a URL with a hyphen in
  the model-name segment are not.
\<close>

lemma match_res_net: "FindStringSubmatch ''/v1/models/res-net/versions/1'' =
    [''/v1/models/res'', ''res'', [], []]"
  by code_simp

theorem Serve_forwards_iff_witness:
  "versioned_model_path (URL (request ''/v1/models/ResNet/versions/1'')) \<and>
   calls (state_after (Serve (fst (NewRestProxy route_ok world0)) silent newResponseWriter
     (request ''/v1/models/ResNet/versions/1'') world0)) =
     [HandlerCall (request ''/v1/models/ResNet/versions/1'') ''ResNet'' ''1'',
      RoundTrip (request ''/v1/models/ResNet/versions/1'')] \<and>
   \<not> versioned_model_path (URL (request ''/v1/models/resnet'')) \<and>
   calls (state_after (Serve (fst (NewRestProxy route_ok world0)) silent newResponseWriter
     (request ''/v1/models/resnet'') world0)) = [] \<and>
   \<not> versioned_model_path (URL (request ''/v1/models/'')) \<and>
   calls (state_after (Serve (fst (NewRestProxy route_ok world0)) silent newResponseWriter
     (request ''/v1/models/'') world0)) = [] \<and>
   \<not> list_all is_alnum (name_segment (URL (request ''/v1/models/res-net/versions/1''))) \<and>
   calls (state_after (Serve (fst (NewRestProxy route_ok world0)) silent newResponseWriter
     (request ''/v1/models/res-net/versions/1'') world0)) = []"
proof -
  have c0: "calls world0 = []"
    by (simp add: world0_def)
  have a: "FindStringSubmatch (URL (request ''/v1/models/ResNet/versions/1'')) =
      [''/v1/models/ResNet/versions/1'', ''ResNet'', ''/versions/1'', ''1'']"
    by (simp add: request_def match_ResNet_1)
  have fa: "Serve (fst (NewRestProxy route_ok world0)) silent newResponseWriter
      (request ''/v1/models/ResNet/versions/1'') world0 =
      Inr (newResponseWriter,
        world0\<lparr>requestsForwarded := (requestsForwarded world0)(''rest'' := 1),
               requestsInvalid := (requestsInvalid world0)(''rest'' := 1),
               calls := [HandlerCall (request ''/v1/models/ResNet/versions/1'') ''ResNet'' ''1'',
                         RoundTrip (request ''/v1/models/ResNet/versions/1'')]\<rparr>)"
    using Serve_forward [OF a, of route_ok world0 silent newResponseWriter world0]
    by (simp add: route_ok_def silent_def world0_def)
  then have ca: "calls (state_after (Serve (fst (NewRestProxy route_ok world0)) silent
      newResponseWriter (request ''/v1/models/ResNet/versions/1'') world0)) =
     [HandlerCall (request ''/v1/models/ResNet/versions/1'') ''ResNet'' ''1'',
      RoundTrip (request ''/v1/models/ResNet/versions/1'')]"
    by (simp add: state_after_def)
  then have pa: "versioned_model_path (URL (request ''/v1/models/ResNet/versions/1''))"
    using Serve_forwards_iff [of "request ''/v1/models/ResNet/versions/1''" route_ok world0
        silent newResponseWriter world0]
    by (simp add: c0)
  have b: "FindStringSubmatch (URL (request ''/v1/models/resnet'')) =
      [''/v1/models/resnet'', ''resnet'', [], []]"
    by (simp add: request_def match_resnet)
  have cb: "calls (state_after (Serve (fst (NewRestProxy route_ok world0)) silent
      newResponseWriter (request ''/v1/models/resnet'') world0)) = []"
    using Serve_bad_request [OF b, of "fst (NewRestProxy route_ok world0)" silent world0]
    by (simp add: state_after_def c0)
  then have pb: "\<not> versioned_model_path (URL (request ''/v1/models/resnet''))"
    using Serve_forwards_iff [of "request ''/v1/models/resnet''" route_ok world0
        silent newResponseWriter world0]
    by (simp add: c0)
  have c: "FindStringSubmatch (URL (request ''/v1/models/'')) = []"
    by (simp add: request_def match_no_name)
  have cc: "calls (state_after (Serve (fst (NewRestProxy route_ok world0)) silent
      newResponseWriter (request ''/v1/models/'') world0)) = []"
    using Serve_no_match [OF c, of "fst (NewRestProxy route_ok world0)" silent
        newResponseWriter world0]
    by (simp add: state_after_def c0)
  then have pc: "\<not> versioned_model_path (URL (request ''/v1/models/''))"
    using Serve_forwards_iff [of "request ''/v1/models/''" route_ok world0
        silent newResponseWriter world0]
    by (simp add: c0)
  have sd: "\<not> list_all is_alnum (name_segment (URL (request ''/v1/models/res-net/versions/1'')))"
    by (simp add: request_def name_segment_def is_alnum_def is_lower_def is_upper_def
        is_digit_def)
  then have cd: "calls (state_after (Serve (fst (NewRestProxy route_ok world0)) silent
      newResponseWriter (request ''/v1/models/res-net/versions/1'') world0)) = []"
    using Serve_forwards_iff [of "request ''/v1/models/res-net/versions/1''" route_ok world0
        silent newResponseWriter world0]
    by (simp add: c0)
  from pa ca pb cb pc cc sd cd show ?thesis
    by simp
qed

text \<open>
  C3 as the specification words it fails twice. A model name with capital letters
  is forwarded, although it has characters outside \<^verbatim>\<open>[a-z0-9]\<close>; and a URL that matches
  \<^verbatim>\<open>/v1/models/{name}\<close> with no version is not forwarded but answered with status 400.
\<close>

theorem Serve_accepts_counterexample:
  \<open>Serve (fst (NewRestProxy route_ok world0)) silent newResponseWriter
     (request ''/v1/models/ResNet/versions/1'') world0 =
     Inr (newResponseWriter,
          world0\<lparr>requestsForwarded := (requestsForwarded world0)(''rest'' := 1),
                 requestsInvalid := (requestsInvalid world0)(''rest'' := 1),
                 calls := [HandlerCall (request ''/v1/models/ResNet/versions/1'') ''ResNet'' ''1'',
                           RoundTrip (request ''/v1/models/ResNet/versions/1'')]\<rparr>) \<and>
   \<not> list_all in_az09 ''ResNet'' \<and>
   Serve (fst (NewRestProxy route_ok world0)) silent newResponseWriter
     (request ''/v1/models/resnet'') world0 =
     Inr (\<lparr>Header = [''Content-Type'' \<mapsto> ''application/json''], statusCode = Some 400,
           body = ''{"Status":"Error","Message":"Model version must be provided"}'' @ [CHR 0x0A]\<rparr>,
          world0\<lparr>requestsInvalid := (requestsInvalid world0)(''rest'' := 1)\<rparr>)\<close>
proof -
  have a: \<open>FindStringSubmatch (URL (request ''/v1/models/ResNet/versions/1'')) =
      [''/v1/models/ResNet/versions/1'', ''ResNet'', ''/versions/1'', ''1'']\<close>
    by (simp add: request_def match_ResNet_1)
  have b: \<open>FindStringSubmatch (URL (request ''/v1/models/resnet'')) =
      [''/v1/models/resnet'', ''resnet'', [], []]\<close>
    by (simp add: request_def match_resnet)
  have \<open>\<not> list_all in_az09 ''ResNet''\<close>
    by (simp add: in_az09_def is_lower_def is_digit_def)
  with Serve_forward [OF a, of route_ok world0 silent newResponseWriter world0]
    Serve_bad_request [OF b, of \<open>fst (NewRestProxy route_ok world0)\<close> silent world0]
  show ?thesis
    by (simp add: route_ok_def silent_def world0_def)
qed

text \<open>
  C4. A URL that the pattern does not match, here \<^verbatim>\<open>/v1/models/\<close> with no model name:
  \<^verbatim>\<open>FindStringSubmatch\<close> returns nil and \<open>Serve\<close> indexes it for its log line, which
  panics (index 1 out of range for length 0) before anything is written to the response
  writer. No status 400 is sent; the state is as it was.
\<close>

theorem Serve_unmatched_url_panics:
  "Serve P tr rw (request ''/v1/models/'') s = Inl (IndexOutOfRange 1 0, s)"
  by (rule Serve_no_match) (simp add: request_def match_no_name)

section \<open>Properties of the gRPC proxy\<close>

lemma of_char_digit_char: "d < 10 \<Longrightarrow> (of_char (digit_char d) :: nat) = 48 + d"
  by (simp add: digit_char_def)

lemma is_digit_digit_char: "d < 10 \<Longrightarrow> is_digit (digit_char d)"
  by (simp add: is_digit_def of_char_digit_char)

lemma digit_value_digit_char: "d < 10 \<Longrightarrow> digit_value (digit_char d) = d"
  by (simp add: digit_value_def of_char_digit_char)

lemma digit_char_zero: "d < 10 \<Longrightarrow> digit_char d = CHR ''0'' \<Longrightarrow> d = 0"
proof -
  assume d: "d < 10" and z: "digit_char d = CHR ''0''"
  have "(of_char (digit_char d) :: nat) = 48" by (simp add: z)
  with d show "d = 0" by (simp add: of_char_digit_char)
qed

lemma decimal_value_snoc: "decimal_value (ds @ [c]) = 10 * decimal_value ds + digit_value c"
  by (simp add: decimal_value_def)

lemma formatBits10_nonempty: "formatBits10 u \<noteq> []"
  by (subst formatBits10.simps) simp

lemma formatBits10_digits: "list_all is_digit (formatBits10 u)"
proof (induction u rule: formatBits10.induct)
  case (1 u)
  show ?case
  proof (cases "u < 10")
    case True
    then show ?thesis by (subst formatBits10.simps) (simp add: is_digit_digit_char)
  next
    case False
    with 1 show ?thesis by (subst formatBits10.simps) (simp add: is_digit_digit_char)
  qed
qed

lemma formatBits10_value: "decimal_value (formatBits10 u) = u"
proof (induction u rule: formatBits10.induct)
  case (1 u)
  show ?case
  proof (cases "u < 10")
    case True
    then show ?thesis
      by (subst formatBits10.simps) (simp add: decimal_value_def digit_value_digit_char)
  next
    case False
    with 1 show ?thesis
      by (subst formatBits10.simps) (simp add: decimal_value_snoc digit_value_digit_char)
  qed
qed

lemma formatBits10_leading: "hd (formatBits10 u) = CHR ''0'' \<Longrightarrow> u = 0"
proof (induction u rule: formatBits10.induct)
  case (1 u)
  show ?case
  proof (cases "u < 10")
    case True
    with 1(2) have "digit_char u = CHR ''0''" by (subst (asm) formatBits10.simps) simp
    with True show ?thesis by (rule digit_char_zero)
  next
    case False
    with 1(2) have "hd (formatBits10 (u div 10)) = CHR ''0''"
      by (subst (asm) formatBits10.simps) (simp add: formatBits10_nonempty)
    with 1(1) False have "u div 10 = 0" by simp
    with False show ?thesis by simp
  qed
qed

lemma formatBits10_zero: "formatBits10 0 = ''0''"
  by (subst formatBits10.simps) (simp add: digit_char_def char_of_eq_iff)

lemma formatBits10_decimal: "decimal_digits (formatBits10 u) u"
  using formatBits10_leading [of u]
  by (auto simp: decimal_digits_def formatBits10_nonempty formatBits10_digits
      formatBits10_value formatBits10_zero)

lemma uint_sint_mod: "uint (i :: 64 word) = sint i mod 2 ^ 64"
  using uint_word_of_int [of "sint i", where 'a = 64] by simp

lemma unat_nonneg_sint: 
  assumes "\<not> sint (i :: 64 word) < 0" shows "unat i = nat (sint i)"
proof -
  have "sint i < 2 ^ 64" using sint_lt [of i] by simp
  with assms have "sint i mod 2 ^ 64 = sint i" by simp
  then show ?thesis by (simp add: unat_eq_nat_uint uint_sint_mod)
qed

lemma unat_neg_sint: 
  assumes "sint (i :: 64 word) < 0" shows "unat (- i) = nat (- sint i)"
proof -
  have "uint (- i) = (- sint i) mod 2 ^ 64"
    using uint_word_of_int [of "- sint i", where 'a = 64] by simp
  moreover have "- sint i < 2 ^ 64" using sint_ge [of i] by simp
  ultimately have "uint (- i) = - sint i" using assms by simp
  then show ?thesis by (simp add: unat_eq_nat_uint)
qed

lemma FormatInt10_rendering: "decimal_rendering (FormatInt10 i) (sint i)"
  by (simp add: decimal_rendering_def FormatInt10_def unat_neg_sint [symmetric]
      unat_nonneg_sint [symmetric] formatBits10_decimal)

lemma FormatInt10_zero: "FormatInt10 0 = ''0''"
  by (simp add: FormatInt10_def formatBits10_zero)

lemma clientForSpec_eq:
  "clientForSpec server spec s =
     (clientProvider server (GetName spec) (FormatInt10 (GetValue (GetVersion spec))),
      s\<lparr>calls := calls s @ [ClientProviderCall (GetName spec)
                                (FormatInt10 (GetValue (GetVersion spec)))]\<rparr>)"
  by (simp add: clientForSpec_def called_def Let_def)

lemma provider_calls_append: "provider_calls (xs @ ys) = provider_calls xs @ provider_calls ys"
  by (induction xs rule: provider_calls.induct) auto

lemmas rpc_defs = Classify_def Regress_def Predict_def GetModelMetadata_def SessionRun_def

lemma rpc_forward:
  assumes "clientProvider server (GetName (GetModelSpec req))
             (FormatInt10 (GetValue (GetVersion (GetModelSpec req)))) = Inr client"
  shows "Classify server service ctx req s =
      (service rpcClassify client ctx req,
       s\<lparr>requestsForwarded := (requestsForwarded s)(''grpc'' := requestsForwarded s ''grpc'' + 1),
         calls := calls s @ [ClientProviderCall (GetName (GetModelSpec req))
                               (FormatInt10 (GetValue (GetVersion (GetModelSpec req)))),
                             RemoteCall rpcClassify client ctx req]\<rparr>)"
    and "Regress server service ctx req s =
      (service rpcRegress client ctx req,
       s\<lparr>requestsForwarded := (requestsForwarded s)(''grpc'' := requestsForwarded s ''grpc'' + 1),
         calls := calls s @ [ClientProviderCall (GetName (GetModelSpec req))
                               (FormatInt10 (GetValue (GetVersion (GetModelSpec req)))),
                             RemoteCall rpcRegress client ctx req]\<rparr>)"
    and "Predict server service ctx req s =
      (service rpcPredict client ctx req,
       s\<lparr>requestsForwarded := (requestsForwarded s)(''grpc'' := requestsForwarded s ''grpc'' + 1),
         calls := calls s @ [ClientProviderCall (GetName (GetModelSpec req))
                               (FormatInt10 (GetValue (GetVersion (GetModelSpec req)))),
                             RemoteCall rpcPredict client ctx req]\<rparr>)"
    and "GetModelMetadata server service ctx req s =
      (service rpcGetModelMetadata client ctx req,
       s\<lparr>requestsForwarded := (requestsForwarded s)(''grpc'' := requestsForwarded s ''grpc'' + 1),
         calls := calls s @ [ClientProviderCall (GetName (GetModelSpec req))
                               (FormatInt10 (GetValue (GetVersion (GetModelSpec req)))),
                             RemoteCall rpcGetModelMetadata client ctx req]\<rparr>)"
    and "SessionRun server service ctx req s =
      (service rpcSessionRun client ctx req,
       s\<lparr>requestsForwarded := (requestsForwarded s)(''grpc'' := requestsForwarded s ''grpc'' + 1),
         calls := calls s @ [ClientProviderCall (GetName (GetModelSpec req))
                               (FormatInt10 (GetValue (GetVersion (GetModelSpec req)))),
                             RemoteCall rpcSessionRun client ctx req]\<rparr>)"
  using assms by (simp_all add: rpc_defs clientForSpec_eq called_def Inc_def Add_def Let_def)

lemma rpc_error:
  assumes "clientProvider server (GetName (GetModelSpec req))
             (FormatInt10 (GetValue (GetVersion (GetModelSpec req)))) = Inl err"
  shows "Classify server service ctx req s =
      ((None, Some err),
       s\<lparr>requestsInvalid := (requestsInvalid s)(''grpc'' := requestsInvalid s ''grpc'' + 1),
         calls := calls s @ [ClientProviderCall (GetName (GetModelSpec req))
                               (FormatInt10 (GetValue (GetVersion (GetModelSpec req))))]\<rparr>)"
    and "Regress server service ctx req s =
      ((None, Some err),
       s\<lparr>requestsInvalid := (requestsInvalid s)(''grpc'' := requestsInvalid s ''grpc'' + 1),
         calls := calls s @ [ClientProviderCall (GetName (GetModelSpec req))
                               (FormatInt10 (GetValue (GetVersion (GetModelSpec req))))]\<rparr>)"
    and "Predict server service ctx req s =
      ((None, Some err),
       s\<lparr>requestsInvalid := (requestsInvalid s)(''grpc'' := requestsInvalid s ''grpc'' + 1),
         calls := calls s @ [ClientProviderCall (GetName (GetModelSpec req))
                               (FormatInt10 (GetValue (GetVersion (GetModelSpec req))))]\<rparr>)"
    and "GetModelMetadata server service ctx req s =
      ((None, Some err),
       s\<lparr>requestsInvalid := (requestsInvalid s)(''grpc'' := requestsInvalid s ''grpc'' + 1),
         calls := calls s @ [ClientProviderCall (GetName (GetModelSpec req))
                               (FormatInt10 (GetValue (GetVersion (GetModelSpec req))))]\<rparr>)"
    and "SessionRun server service ctx req s =
      ((None, Some err),
       s\<lparr>requestsInvalid := (requestsInvalid s)(''grpc'' := requestsInvalid s ''grpc'' + 1),
         calls := calls s @ [ClientProviderCall (GetName (GetModelSpec req))
                               (FormatInt10 (GetValue (GetVersion (GetModelSpec req))))]\<rparr>)"
  using assms by (simp_all add: rpc_defs clientForSpec_eq called_def Inc_def Add_def)

lemma rpc_provider_calls:
  "provider_calls (calls (snd (Classify server service ctx req s))) =
     provider_calls (calls s) @
       [(GetName (GetModelSpec req), FormatInt10 (GetValue (GetVersion (GetModelSpec req))))]"
  "provider_calls (calls (snd (Regress server service ctx req s))) =
     provider_calls (calls s) @
       [(GetName (GetModelSpec req), FormatInt10 (GetValue (GetVersion (GetModelSpec req))))]"
  "provider_calls (calls (snd (Predict server service ctx req s))) =
     provider_calls (calls s) @
       [(GetName (GetModelSpec req), FormatInt10 (GetValue (GetVersion (GetModelSpec req))))]"
  "provider_calls (calls (snd (GetModelMetadata server service ctx req s))) =
     provider_calls (calls s) @
       [(GetName (GetModelSpec req), FormatInt10 (GetValue (GetVersion (GetModelSpec req))))]"
  "provider_calls (calls (snd (SessionRun server service ctx req s))) =
     provider_calls (calls s) @
       [(GetName (GetModelSpec req), FormatInt10 (GetValue (GetVersion (GetModelSpec req))))]"
  by (cases "clientProvider server (GetName (GetModelSpec req))
             (FormatInt10 (GetValue (GetVersion (GetModelSpec req))))";
      simp add: rpc_forward rpc_error provider_calls_append)+

text \<open>Renderings used in the examples, computed from the definition.\<close>

lemma FormatInt10_7: "FormatInt10 7 = ''7''"
  by code_simp

lemma FormatInt10_minus_12: "FormatInt10 (- 12) = ''-12''"
  by code_simp

text \<open>
  C5, as the code has it. \<open>MultiInference\<close> fails for every server, context, request and
  state: the response is nil and the error is not nil. The error is the plain one made by
  \<^verbatim>\<open>errors.New("MultiInference not supported")\<close>; it carries no gRPC status, so the code a
  client sees is Unknown. The state is returned as it was: the client provider is not
  called, no remote call is made and no counter moves.
\<close>

theorem MultiInference_unsupported:
  "fst (fst (MultiInference server ctx req s)) = None \<and>
   snd (fst (MultiInference server ctx req s)) =
     Some (errorString ''MultiInference not supported'') \<and>
   snd (fst (MultiInference server ctx req s)) \<noteq> None \<and>
   Code (snd (fst (MultiInference server ctx req s))) = Unknown \<and>
   snd (MultiInference server ctx req s) = s \<and>
   calls (snd (MultiInference server ctx req s)) = calls s \<and>
   requestsForwarded (snd (MultiInference server ctx req s)) = requestsForwarded s \<and>
   requestsInvalid (snd (MultiInference server ctx req s)) = requestsInvalid s"
  by (simp add: MultiInference_def)

text \<open>
  C5 as the specification words it asks for an Unimplemented error. The error that
  \<open>MultiInference\<close> returns for a request has the status code Unknown, which is not
  Unimplemented.
\<close>

theorem MultiInference_code_counterexample:
  "Code (snd (fst (MultiInference (serverImpl (fst (NewGrpcProxy provider_ok world0))) 0
      request_resnet_7 world0))) = Unknown \<and>
   Code (snd (fst (MultiInference (serverImpl (fst (NewGrpcProxy provider_ok world0))) 0
      request_resnet_7 world0))) \<noteq> Unimplemented"
  by (simp add: MultiInference_def Unknown_def Unimplemented_def)

text \<open>
  C6. \<open>clientForSpec\<close> applies the client provider to the name of the \<open>ModelSpec\<close> and to
  the text that \<^verbatim>\<open>strconv.FormatInt(_, 10)\<close> makes of its version, and returns what the
  provider returns. Each of the five methods calls it on the \<open>ModelSpec\<close> of its request:
  what the method returns is decided by what the provider returns for that name and that
  text (its error, or the answer of the remote method over its connection), and the
  provider is called once, with that name and that text. The text is the decimal
  rendering of the version read as a signed 64-bit number; when the specification, its
  version or the number is absent or zero, it is \<^verbatim>\<open>"0"\<close>.
\<close>

theorem provider_gets_name_and_decimal_version:
  "decimal_rendering (FormatInt10 (GetValue (GetVersion (GetModelSpec req))))
     (sint (GetValue (GetVersion (GetModelSpec req)))) \<and>
   (GetModelSpec req = None \<or> GetVersion (GetModelSpec req) = None \<or>
      GetValue (GetVersion (GetModelSpec req)) = 0 \<longrightarrow>
    FormatInt10 (GetValue (GetVersion (GetModelSpec req))) = ''0'') \<and>
   clientForSpec server (GetModelSpec req) s =
     (clientProvider server (GetName (GetModelSpec req))
        (FormatInt10 (GetValue (GetVersion (GetModelSpec req)))),
      s\<lparr>calls := calls s @ [ClientProviderCall (GetName (GetModelSpec req))
                                (FormatInt10 (GetValue (GetVersion (GetModelSpec req))))]\<rparr>) \<and>
   fst (Classify server service ctx req s) =
     (case clientProvider server (GetName (GetModelSpec req))
             (FormatInt10 (GetValue (GetVersion (GetModelSpec req)))) of
        Inl err \<Rightarrow> (None, Some err)
      | Inr client \<Rightarrow> service rpcClassify client ctx req) \<and>
   fst (Regress server service ctx req s) =
     (case clientProvider server (GetName (GetModelSpec req))
             (FormatInt10 (GetValue (GetVersion (GetModelSpec req)))) of
        Inl err \<Rightarrow> (None, Some err)
      | Inr client \<Rightarrow> service rpcRegress client ctx req) \<and>
   fst (Predict server service ctx req s) =
     (case clientProvider server (GetName (GetModelSpec req))
             (FormatInt10 (GetValue (GetVersion (GetModelSpec req)))) of
        Inl err \<Rightarrow> (None, Some err)
      | Inr client \<Rightarrow> service rpcPredict client ctx req) \<and>
   fst (GetModelMetadata server service ctx req s) =
     (case clientProvider server (GetName (GetModelSpec req))
             (FormatInt10 (GetValue (GetVersion (GetModelSpec req)))) of
        Inl err \<Rightarrow> (None, Some err)
      | Inr client \<Rightarrow> service rpcGetModelMetadata client ctx req) \<and>
   fst (SessionRun server service ctx req s) =
     (case clientProvider server (GetName (GetModelSpec req))
             (FormatInt10 (GetValue (GetVersion (GetModelSpec req)))) of
        Inl err \<Rightarrow> (None, Some err)
      | Inr client \<Rightarrow> service rpcSessionRun client ctx req) \<and>
   (\<forall>method \<in> {Classify, Regress, Predict, GetModelMetadata, SessionRun}.
      provider_calls (calls (snd (method server service ctx req s))) =
        provider_calls (calls s) @
          [(GetName (GetModelSpec req), FormatInt10 (GetValue (GetVersion (GetModelSpec req))))])"
proof -
  have z: "GetModelSpec req = None \<or> GetVersion (GetModelSpec req) = None \<or>
      GetValue (GetVersion (GetModelSpec req)) = 0 \<longrightarrow>
    FormatInt10 (GetValue (GetVersion (GetModelSpec req))) = ''0''"
    by (auto simp: GetVersion_def GetValue_def FormatInt10_zero)
  have m: "fst (Classify server service ctx req s) =
     (case clientProvider server (GetName (GetModelSpec req))
             (FormatInt10 (GetValue (GetVersion (GetModelSpec req)))) of
        Inl err \<Rightarrow> (None, Some err)
      | Inr client \<Rightarrow> service rpcClassify client ctx req)"
    "fst (Regress server service ctx req s) =
     (case clientProvider server (GetName (GetModelSpec req))
             (FormatInt10 (GetValue (GetVersion (GetModelSpec req)))) of
        Inl err \<Rightarrow> (None, Some err)
      | Inr client \<Rightarrow> service rpcRegress client ctx req)"
    "fst (Predict server service ctx req s) =
     (case clientProvider server (GetName (GetModelSpec req))
             (FormatInt10 (GetValue (GetVersion (GetModelSpec req)))) of
        Inl err \<Rightarrow> (None, Some err)
      | Inr client \<Rightarrow> service rpcPredict client ctx req)"
    "fst (GetModelMetadata server service ctx req s) =
     (case clientProvider server (GetName (GetModelSpec req))
             (FormatInt10 (GetValue (GetVersion (GetModelSpec req)))) of
        Inl err \<Rightarrow> (None, Some err)
      | Inr client \<Rightarrow> service rpcGetModelMetadata client ctx req)"
    "fst (SessionRun server service ctx req s) =
     (case clientProvider server (GetName (GetModelSpec req))
             (FormatInt10 (GetValue (GetVersion (GetModelSpec req)))) of
        Inl err \<Rightarrow> (None, Some err)
      | Inr client \<Rightarrow> service rpcSessionRun client ctx req)"
    by (cases "clientProvider server (GetName (GetModelSpec req))
             (FormatInt10 (GetValue (GetVersion (GetModelSpec req))))";
        simp add: rpc_forward rpc_error)+
  have p: "\<forall>method \<in> {Classify, Regress, Predict, GetModelMetadata, SessionRun}.
      provider_calls (calls (snd (method server service ctx req s))) =
        provider_calls (calls s) @
          [(GetName (GetModelSpec req), FormatInt10 (GetValue (GetVersion (GetModelSpec req))))]"
    by (simp add: rpc_provider_calls)
  from FormatInt10_rendering z clientForSpec_eq m p show ?thesis
    by blast
qed

theorem provider_gets_name_and_decimal_version_witness:
  "decimal_rendering ''7'' 7 \<and>
   clientForSpec \<lparr>clientProvider = provider_resnet_7\<rparr> (GetModelSpec request_resnet_7) world0 =
     (Inr (ClientConn ''node1:8095''), world0\<lparr>calls := [ClientProviderCall ''resnet'' ''7'']\<rparr>) \<and>
   fst (Predict \<lparr>clientProvider = provider_resnet_7\<rparr> service_echo 0 request_resnet_7 world0) =
     (Some ''x'', None) \<and>
   provider_calls (calls (snd (Predict \<lparr>clientProvider = provider_resnet_7\<rparr> service_echo 0
      request_resnet_7 world0))) = [(''resnet'', ''7'')] \<and>
   GetVersion (GetModelSpec request_no_version) = None \<and>
   fst (SessionRun \<lparr>clientProvider = provider_resnet_7\<rparr> service_echo 0 request_no_version
      world0) = (None, Some (errorString ''no node for resnet:0'')) \<and>
   provider_calls (calls (snd (SessionRun \<lparr>clientProvider = provider_resnet_7\<rparr> service_echo 0
      request_no_version world0))) = [(''resnet'', ''0'')] \<and>
   GetModelSpec request_no_spec = None \<and>
   fst (Classify \<lparr>clientProvider = provider_resnet_7\<rparr> service_echo 0 request_no_spec
      world0) = (None, Some (errorString ''no node for :0'')) \<and>
   provider_calls (calls (snd (Classify \<lparr>clientProvider = provider_resnet_7\<rparr> service_echo 0
      request_no_spec world0))) = [([], ''0'')]"
proof -
  have a: "GetName (GetModelSpec request_resnet_7) = ''resnet''"
    "GetValue (GetVersion (GetModelSpec request_resnet_7)) = 7"
    by (simp_all add: request_resnet_7_def GetModelSpec_def GetName_def GetVersion_def GetValue_def)
  have b: "GetName (GetModelSpec request_no_version) = ''resnet''"
    "GetVersion (GetModelSpec request_no_version) = None"
    by (simp_all add: request_no_version_def GetModelSpec_def GetName_def GetVersion_def)
  have c: "GetModelSpec request_no_spec = None"
    by (simp add: request_no_spec_def GetModelSpec_def)
  have d: "GetName None = []" "GetVersion None = None" "GetValue None = 0"
    by (simp_all add: GetName_def GetVersion_def GetValue_def)
  have e: "Payload request_resnet_7 = ''x''" "calls world0 = []"
    by (simp_all add: request_resnet_7_def world0_def)
  from provider_gets_name_and_decimal_version
         [of request_resnet_7 "\<lparr>clientProvider = provider_resnet_7\<rparr>" world0 service_echo 0]
       provider_gets_name_and_decimal_version
         [of request_no_version "\<lparr>clientProvider = provider_resnet_7\<rparr>" world0 service_echo 0]
       provider_gets_name_and_decimal_version
         [of request_no_spec "\<lparr>clientProvider = provider_resnet_7\<rparr>" world0 service_echo 0]
  show ?thesis
    by (simp add: a b c d e FormatInt10_7 FormatInt10_zero provider_resnet_7_def
        service_echo_def)
qed

text \<open>
  C7. When the client provider returns a connection, each of the five methods returns the
  pair of response and error that the remote method returned over that connection, as it
  is.
\<close>

theorem upstream_result_unmodified:
  assumes "fst (clientForSpec server (GetModelSpec req) s) = Inr client"
  shows "fst (Classify server service ctx req s) = service rpcClassify client ctx req \<and>
         fst (Regress server service ctx req s) = service rpcRegress client ctx req \<and>
         fst (Predict server service ctx req s) = service rpcPredict client ctx req \<and>
         fst (GetModelMetadata server service ctx req s) =
           service rpcGetModelMetadata client ctx req \<and>
         fst (SessionRun server service ctx req s) = service rpcSessionRun client ctx req"
  using assms by (simp add: clientForSpec_eq rpc_forward)

theorem upstream_result_unmodified_witness:
  "fst (clientForSpec \<lparr>clientProvider = provider_ok\<rparr> (GetModelSpec request_resnet_7) world0) =
     Inr (ClientConn ''node1:8095'') \<and>
   fst (Predict \<lparr>clientProvider = provider_ok\<rparr> service_echo 0 request_resnet_7 world0) =
     (Some ''x'', None) \<and>
   fst (Classify \<lparr>clientProvider = provider_ok\<rparr> service_down 0 request_resnet_7 world0) =
     (None, Some (statusError 14 ''unavailable''))"
proof -
  have h: "fst (clientForSpec \<lparr>clientProvider = provider_ok\<rparr> (GetModelSpec request_resnet_7) world0) =
     Inr (ClientConn ''node1:8095'')"
    by (simp add: clientForSpec_eq provider_ok_def)
  from h upstream_result_unmodified [OF h, of service_echo 0]
    upstream_result_unmodified [OF h, of service_down 0]
  show ?thesis
    by (simp add: service_echo_def service_down_def request_resnet_7_def)
qed

text \<open>
  C8. A REST request whose URL matches with a version: \<open>Serve\<close> adds one to
  \<^verbatim>\<open>requestsForwarded\<close> labelled rest and then hands the request to the reverse proxy,
  which (with the director of \<open>NewRestProxy\<close>) leaves that counter alone, so that it is
  one higher when \<open>Serve\<close> returns. A gRPC request for which the client provider returns
  a connection: each of the five methods returns with \<^verbatim>\<open>requestsForwarded\<close> labelled
  grpc one higher and the other labels as they were.
\<close>

theorem forwards_counted_once:
  "(FindStringSubmatch (URL req) \<noteq> [] \<and> FindStringSubmatch (URL req) ! 3 \<noteq> [] \<longrightarrow>
      Serve P tr rw req s =
        ServeHTTP (RestProxy P) tr rw req
          (s\<lparr>requestsForwarded :=
               (requestsForwarded s)(''rest'' := requestsForwarded s ''rest'' + 1)\<rparr>) \<and>
      (\<exists>rw' s'. Serve (fst (NewRestProxy h s0)) tr rw req s = Inr (rw', s') \<and>
         requestsForwarded s' =
           (requestsForwarded s)(''rest'' := requestsForwarded s ''rest'' + 1))) \<and>
   (fst (clientForSpec server (GetModelSpec greq) t) = Inr client \<longrightarrow>
      (\<forall>method \<in> {Classify, Regress, Predict, GetModelMetadata, SessionRun}.
         requestsForwarded (snd (method server service ctx greq t)) =
           (requestsForwarded t)(''grpc'' := requestsForwarded t ''grpc'' + 1)))"
proof (intro conjI impI)
  assume a: "FindStringSubmatch (URL req) \<noteq> [] \<and> FindStringSubmatch (URL req) ! 3 \<noteq> []"
  with FindStringSubmatch_shape [of "URL req"]
  obtain m name g version where
    ms: "FindStringSubmatch (URL req) = [m, name, g, version]" and v: "version \<noteq> []"
    by auto
  from ms v show "Serve P tr rw req s =
        ServeHTTP (RestProxy P) tr rw req
          (s\<lparr>requestsForwarded :=
               (requestsForwarded s)(''rest'' := requestsForwarded s ''rest'' + 1)\<rparr>)"
    by (simp add: Serve_def index_def Inc_def Add_def)
  from Serve_forward [OF ms v, of h s0 tr rw s]
  show "\<exists>rw' s'. Serve (fst (NewRestProxy h s0)) tr rw req s = Inr (rw', s') \<and>
         requestsForwarded s' =
           (requestsForwarded s)(''rest'' := requestsForwarded s ''rest'' + 1)"
    by simp
next
  assume "fst (clientForSpec server (GetModelSpec greq) t) = Inr client"
  then have "clientProvider server (GetName (GetModelSpec greq))
      (FormatInt10 (GetValue (GetVersion (GetModelSpec greq)))) = Inr client"
    by (simp add: clientForSpec_eq)
  then show "\<forall>method \<in> {Classify, Regress, Predict, GetModelMetadata, SessionRun}.
         requestsForwarded (snd (method server service ctx greq t)) =
           (requestsForwarded t)(''grpc'' := requestsForwarded t ''grpc'' + 1)"
    by (simp add: rpc_forward)
qed

theorem forwards_counted_once_witness:
  "FindStringSubmatch (URL (request ''/v1/models/resnet/versions/7:predict'')) \<noteq> [] \<and>
   FindStringSubmatch (URL (request ''/v1/models/resnet/versions/7:predict'')) ! 3 \<noteq> [] \<and>
   (\<exists>rw' s'. Serve (fst (NewRestProxy route_fail world0)) silent newResponseWriter
                (request ''/v1/models/resnet/versions/7:predict'') world0 = Inr (rw', s') \<and>
              requestsForwarded s' = (requestsForwarded world0)(''rest'' := 1)) \<and>
   fst (clientForSpec \<lparr>clientProvider = provider_ok\<rparr> (GetModelSpec request_resnet_7) world0) =
     Inr (ClientConn ''node1:8095'') \<and>
   requestsForwarded (snd (Predict \<lparr>clientProvider = provider_ok\<rparr> service_down 0
      request_resnet_7 world0)) = (requestsForwarded world0)(''grpc'' := 1)"
proof -
  have h1: "FindStringSubmatch (URL (request ''/v1/models/resnet/versions/7:predict'')) \<noteq> [] \<and>
      FindStringSubmatch (URL (request ''/v1/models/resnet/versions/7:predict'')) ! 3 \<noteq> []"
    by (simp add: request_def match_resnet_7)
  have h2: "fst (clientForSpec \<lparr>clientProvider = provider_ok\<rparr> (GetModelSpec request_resnet_7)
      world0) = Inr (ClientConn ''node1:8095'')"
    by (simp add: clientForSpec_eq provider_ok_def)
  note t = forwards_counted_once
    [of "request ''/v1/models/resnet/versions/7:predict''" "fst (NewRestProxy route_fail world0)"
        silent newResponseWriter world0 route_fail world0
        "\<lparr>clientProvider = provider_ok\<rparr>" request_resnet_7 world0 "ClientConn ''node1:8095''"
        service_down 0]
  from t h1 have r: "\<exists>rw' s'. Serve (fst (NewRestProxy route_fail world0)) silent newResponseWriter
                (request ''/v1/models/resnet/versions/7:predict'') world0 = Inr (rw', s') \<and>
              requestsForwarded s' =
                (requestsForwarded world0)(''rest'' := requestsForwarded world0 ''rest'' + 1)"
    by blast
  from t h2 have g: "requestsForwarded (snd (Predict \<lparr>clientProvider = provider_ok\<rparr> service_down 0
      request_resnet_7 world0)) =
        (requestsForwarded world0)(''grpc'' := requestsForwarded world0 ''grpc'' + 1)"
    by blast
  have w: "requestsForwarded world0 = (\<lambda>l. 0)"
    by (simp add: world0_def)
  from h1 h2 r g show ?thesis
    by (simp add: w)
qed

text \<open>
  C10. When the client provider, asked for the name and the version of the request's
  \<open>ModelSpec\<close>, returns an error, each of the five methods returns a nil response with
  that error, after adding one to \<^verbatim>\<open>requestsInvalid\<close> labelled grpc. The only call made is
  the one to the client provider: no remote method is called, and \<^verbatim>\<open>requestsForwarded\<close>
  is as it was.
\<close>

theorem provider_error_returned:
  assumes "clientProvider server (GetName (GetModelSpec req))
             (FormatInt10 (GetValue (GetVersion (GetModelSpec req)))) = Inl err"
  shows "\<forall>method \<in> {Classify, Regress, Predict, GetModelMetadata, SessionRun}.
     method server service ctx req s =
       ((None, Some err),
        s\<lparr>requestsInvalid := (requestsInvalid s)(''grpc'' := requestsInvalid s ''grpc'' + 1),
          calls := calls s @ [ClientProviderCall (GetName (GetModelSpec req))
                                (FormatInt10 (GetValue (GetVersion (GetModelSpec req))))]\<rparr>)"
  using assms by (simp add: rpc_error)

theorem provider_error_returned_witness:
  "clientProvider \<lparr>clientProvider = provider_fail\<rparr> (GetName (GetModelSpec request_resnet_7))
     (FormatInt10 (GetValue (GetVersion (GetModelSpec request_resnet_7)))) =
     Inl (errorString ''no node for resnet:7'') \<and>
   Predict \<lparr>clientProvider = provider_fail\<rparr> service_echo 0 request_resnet_7 world0 =
     ((None, Some (errorString ''no node for resnet:7'')),
      world0\<lparr>requestsInvalid := (requestsInvalid world0)(''grpc'' := 1),
             calls := [ClientProviderCall ''resnet'' ''7'']\<rparr>) \<and>
   SessionRun \<lparr>clientProvider = provider_fail\<rparr> service_echo 0 request_resnet_7 world0 =
     ((None, Some (errorString ''no node for resnet:7'')),
      world0\<lparr>requestsInvalid := (requestsInvalid world0)(''grpc'' := 1),
             calls := [ClientProviderCall ''resnet'' ''7'']\<rparr>)"
proof -
  have a: "GetName (GetModelSpec request_resnet_7) = ''resnet''"
    "GetValue (GetVersion (GetModelSpec request_resnet_7)) = 7"
    by (simp_all add: request_resnet_7_def GetModelSpec_def GetName_def GetVersion_def GetValue_def)
  have h: "clientProvider \<lparr>clientProvider = provider_fail\<rparr>
      (GetName (GetModelSpec request_resnet_7))
      (FormatInt10 (GetValue (GetVersion (GetModelSpec request_resnet_7)))) =
     Inl (errorString ''no node for resnet:7'')"
    by (simp add: a FormatInt10_7 provider_fail_def)
  from h provider_error_returned [OF h, of service_echo 0 world0]
  show ?thesis
    by (simp add: a FormatInt10_7 world0_def)
qed

end
